theory Spec2Isabelle
  imports Complex_Main
begin

section \<open>Viral-kinetics datasets and bracket classifiers (NNModel.py)\<close>

text \<open>
  The numeric cells of the program are float64 values. In the data frames they are
  modelled by \<^typ>\<open>real\<close>: a cell is a finite number. The threshold arithmetic of
  \<^verbatim>\<open>bracket\<close> is given twice: over exact reals, for what does not depend on rounding,
  and in binary64. Python integers are \<^typ>\<open>int\<close>, a raised exception is the left
  summand of a result.
\<close>

subsection \<open>The bracket rule\<close>

text \<open>
  The method \<^verbatim>\<open>bracket(self, y)\<close> occurs four times in the source, once in every class
  that owns a pair \<^verbatim>\<open>self.y_min\<close>, \<^verbatim>\<open>self.y_max\<close>. The two fields are the first two
  arguments of the model.
\<close>

definition lazy_classifier_bracket :: "real \<Rightarrow> real \<Rightarrow> real \<Rightarrow> int" where
  "lazy_classifier_bracket y_min y_max y =
     (let y_mid = (y_min + y_max) / 2 in
      if y > y_mid then
        (if y > (y_mid + y_max) / 2 then 3 else 2)
      else if y > (y_mid + y_min) / 2 then 1
      else 0)"

definition lazy_classifier2_bracket :: "real \<Rightarrow> real \<Rightarrow> real \<Rightarrow> int" where
  "lazy_classifier2_bracket y_min y_max y =
     (let y_mid = (y_min + y_max) / 2 in
      if y > y_mid then
        (if y > (y_mid + y_max) / 2 then 3 else 2)
      else if y > (y_mid + y_min) / 2 then 1
      else 0)"

definition ODEDatasetClassifier_bracket :: "real \<Rightarrow> real \<Rightarrow> real \<Rightarrow> int" where
  "ODEDatasetClassifier_bracket y_min y_max y =
     (let y_mid = (y_min + y_max) / 2 in
      if y > y_mid then
        (if y > (y_mid + y_max) / 2 then 3 else 2)
      else if y > (y_mid + y_min) / 2 then 1
      else 0)"

definition ODEDatasetClassifierNoisy_bracket :: "real \<Rightarrow> real \<Rightarrow> real \<Rightarrow> int" where
  "ODEDatasetClassifierNoisy_bracket y_min y_max y =
     (let y_mid = (y_min + y_max) / 2 in
      if y > y_mid then
        (if y > (y_mid + y_max) / 2 then 3 else 2)
      else if y > (y_mid + y_min) / 2 then 1
      else 0)"

subsection \<open>Binary64 arithmetic\<close>

text \<open>
  The thresholds of \<^verbatim>\<open>bracket\<close> are computed in binary64 (float64): every operation
  rounds its exact result to the nearest binary64 number, ties to the even significand,
  and yields an infinity beyond the largest number. \<open>Fin r\<close> is the number \<open>r\<close>; the two
  zeros are one value, as no comparison tells them apart.
\<close>

datatype f64 = Fin real | PInf | NInf | NaN

text \<open>The nearest integer, ties to even.\<close>

definition rne :: "real \<Rightarrow> int" where
  "rne q =
     (let f = \<lfloor>q\<rfloor>; d = q - of_int f
      in if d < 1 / 2 then f
         else if 1 / 2 < d then f + 1
         else if even f then f else f + 1)"

text \<open>
  The exponent of the unit in the last place of the 53-bit significand; numbers below
  \<open>2 powi - 1022\<close> are subnormal and share the exponent \<open>- 1074\<close>.
\<close>

definition ulp_exp :: "real \<Rightarrow> int" where
  "ulp_exp x = max \<lfloor>log 2 \<bar>x\<bar>\<rfloor> (- 1022) - 52"

definition round_f64 :: "real \<Rightarrow> f64" where
  "round_f64 x =
     (if x = 0 then Fin 0
      else
        (let u = 2 powi ulp_exp x; r = of_int (rne (x / u)) * u
         in if 2 ^ 1024 \<le> r then PInf
            else if r \<le> - (2 ^ 1024) then NInf
            else Fin r))"

text \<open>The operations \<^verbatim>\<open>a + b\<close>, \<^verbatim>\<open>a / 2\<close> and \<^verbatim>\<open>a > b\<close> of the method.\<close>

fun f64_add :: "f64 \<Rightarrow> f64 \<Rightarrow> f64" where
  "f64_add (Fin a) (Fin b) = round_f64 (a + b)"
| "f64_add NaN _ = NaN"
| "f64_add _ NaN = NaN"
| "f64_add PInf NInf = NaN"
| "f64_add NInf PInf = NaN"
| "f64_add PInf _ = PInf"
| "f64_add _ PInf = PInf"
| "f64_add NInf _ = NInf"
| "f64_add _ NInf = NInf"

fun f64_div2 :: "f64 \<Rightarrow> f64" where
  "f64_div2 (Fin a) = round_f64 (a / 2)"
| "f64_div2 PInf = PInf"
| "f64_div2 NInf = NInf"
| "f64_div2 NaN = NaN"

fun f64_gt :: "f64 \<Rightarrow> f64 \<Rightarrow> bool" where
  "f64_gt (Fin a) (Fin b) = (a > b)"
| "f64_gt NaN _ = False"
| "f64_gt _ NaN = False"
| "f64_gt PInf PInf = False"
| "f64_gt PInf _ = True"
| "f64_gt _ PInf = False"
| "f64_gt NInf _ = False"
| "f64_gt _ NInf = True"

text \<open>\<^verbatim>\<open>ODEDatasetClassifier.bracket\<close> with the arithmetic of the source.\<close>

definition ODEDatasetClassifier_bracket_f64 :: "f64 \<Rightarrow> f64 \<Rightarrow> f64 \<Rightarrow> int" where
  "ODEDatasetClassifier_bracket_f64 y_min y_max y =
     (let y_mid = f64_div2 (f64_add y_min y_max) in
      if f64_gt y y_mid then
        (if f64_gt y (f64_div2 (f64_add y_mid y_max)) then 3 else 2)
      else if f64_gt y (f64_div2 (f64_add y_mid y_min)) then 1
      else 0)"

subsection \<open>The translate rule\<close>

text \<open>
  \<^verbatim>\<open>translate\<close> is a \<^verbatim>\<open>match\<close> statement over four literal cases with no default case:
  a prediction that matches none of them falls off the end of the method, which returns
  \<^verbatim>\<open>None\<close>.
\<close>

definition ViralKineticsDNNClassifier_translate :: "int \<Rightarrow> string option" where
  "ViralKineticsDNNClassifier_translate prediction =
     (if prediction = 0 then Some ''Low''
      else if prediction = 1 then Some ''Medium-Low''
      else if prediction = 2 then Some ''Medium-High''
      else if prediction = 3 then Some ''High''
      else None)"

definition lazy_classifier_translate :: "int \<Rightarrow> string option" where
  "lazy_classifier_translate prediction =
     (if prediction = 0 then Some ''Low''
      else if prediction = 1 then Some ''Medium-Low''
      else if prediction = 2 then Some ''Medium-High''
      else if prediction = 3 then Some ''High''
      else None)"

definition lazy_classifier2_translate :: "int \<Rightarrow> string option" where
  "lazy_classifier2_translate prediction =
     (if prediction = 0 then Some ''Medium-Low''
      else if prediction = 1 then Some ''Medium-High''
      else if prediction = 2 then Some ''High''
      else if prediction = 3 then Some ''High''
      else None)"

subsection \<open>Data frames\<close>

text \<open>
  A data frame is the table that \<^verbatim>\<open>pd.read_csv\<close> returns: the header labels in file
  order and the records in file order, one cell per label. A frame that comes out of
  the reader is rectangular and its labels are pairwise different (the reader renames
  a repeated label).
\<close>

datatype error = KeyError "string list" | IndexError | ValueError

record dataframe =
  columns :: "string list"
  rows :: "real list list"

definition wf_frame :: "dataframe \<Rightarrow> bool" where
  "wf_frame df =
     (distinct (columns df) \<and> list_all (\<lambda>r. length r = length (columns df)) (rows df))"

text \<open>
  \<^verbatim>\<open>data.drop(labels, axis=1)\<close> and \<^verbatim>\<open>data.drop(columns=labels)\<close>: the columns are
  found by label; labels that are no column raise \<^verbatim>\<open>KeyError\<close>.
\<close>

definition drop_columns :: "string list \<Rightarrow> dataframe \<Rightarrow> error + dataframe" where
  "drop_columns labels df =
     (case filter (\<lambda>l. l \<notin> set (columns df)) labels of
        [] \<Rightarrow>
          Inr \<lparr>columns = filter (\<lambda>c. c \<notin> set labels) (columns df),
               rows = map (\<lambda>r. map snd (filter (\<lambda>(c, v). c \<notin> set labels) (zip (columns df) r)))
                          (rows df)\<rparr>
      | missing \<Rightarrow> Inl (KeyError missing))"

text \<open>\<^verbatim>\<open>data.drop(data.columns[0], axis=1)\<close>\<close>

definition drop_first_column :: "dataframe \<Rightarrow> error + dataframe" where
  "drop_first_column df =
     (case columns df of
        [] \<Rightarrow> Inl IndexError
      | c # _ \<Rightarrow> drop_columns [c] df)"

text \<open>\<^verbatim>\<open>data.mask(data < 1, 1)\<close>: every cell for which the condition holds is replaced.\<close>

definition mask_lt_1 :: "dataframe \<Rightarrow> dataframe" where
  "mask_lt_1 df = df\<lparr>rows := map (map (\<lambda>v. if v < 1 then 1 else v)) (rows df)\<rparr>"

text \<open>\<^verbatim>\<open>data[c] = np.log(data[c])\<close>: reading a label that is no column raises.\<close>

definition log_column :: "string \<Rightarrow> dataframe \<Rightarrow> error + dataframe" where
  "log_column c df =
     (if c \<in> set (columns df) then
        Inr (df\<lparr>rows := map (\<lambda>r. map (\<lambda>(n, v). if n = c then ln v else v) (zip (columns df) r))
                             (rows df)\<rparr>)
      else Inl (KeyError [c]))"

text \<open>The six assignments of the constructors, in the order of the source.\<close>

definition x_cols :: "string list" where
  "x_cols = [''xTarget'', ''xPre-Infected'', ''xInfected'', ''xVirus'', ''xCDE8e'', ''xCD8m'']"

fun log_columns :: "string list \<Rightarrow> dataframe \<Rightarrow> error + dataframe" where
  "log_columns [] df = Inr df"
| "log_columns (c # cs) df =
     (case log_column c df of
        Inl e \<Rightarrow> Inl e
      | Inr df' \<Rightarrow> log_columns cs df')"

definition y_cols :: "string list" where
  "y_cols = [''yTarget'', ''yPre-Infected'', ''yInfected'', ''yVirus'', ''yCDE8e'', ''yCD8m'']"

text \<open>Python's \<^verbatim>\<open>list.pop(i)\<close>, of which the constructors keep the remaining list.\<close>

definition list_pop :: "'a list \<Rightarrow> int \<Rightarrow> error + 'a list" where
  "list_pop xs i =
     (let n = int (length xs); j = (if i < 0 then n + i else i)
      in if 0 \<le> j \<and> j < n then Inr (take (nat j) xs @ drop (Suc (nat j)) xs)
         else Inl IndexError)"

text \<open>
  \<^verbatim>\<open>data.max(axis=0)[6]\<close> and \<^verbatim>\<open>data.min(axis=0)[6]\<close>: the reduction of every column,
  read at position 6. The reduction of a column without cells is NaN, which is
  \<^term>\<open>None\<close> here.
\<close>

definition column_at :: "nat \<Rightarrow> dataframe \<Rightarrow> real list" where
  "column_at i df = map (\<lambda>r. r ! i) (rows df)"

fun reduce :: "(real \<Rightarrow> real \<Rightarrow> real) \<Rightarrow> real list \<Rightarrow> real option" where
  "reduce f [] = None"
| "reduce f (v # vs) = Some (fold f vs v)"

definition max_axis0_at :: "nat \<Rightarrow> dataframe \<Rightarrow> error + real option" where
  "max_axis0_at i df =
     (if i < length (columns df) then Inr (reduce max (column_at i df)) else Inl IndexError)"

definition min_axis0_at :: "nat \<Rightarrow> dataframe \<Rightarrow> error + real option" where
  "min_axis0_at i df =
     (if i < length (columns df) then Inr (reduce min (column_at i df)) else Inl IndexError)"

text \<open>\<^verbatim>\<open>data.iloc[idx]\<close>: a record by position, negative positions count from the end.\<close>

definition iloc :: "dataframe \<Rightarrow> int \<Rightarrow> error + real list" where
  "iloc df idx =
     (let n = int (length (rows df)); j = (if idx < 0 then n + idx else idx)
      in if 0 \<le> j \<and> j < n then Inr (rows df ! nat j) else Inl IndexError)"

text \<open>\<^verbatim>\<open>t[k] = v\<close> on a one-dimensional tensor.\<close>

definition setitem :: "real list \<Rightarrow> int \<Rightarrow> real \<Rightarrow> error + real list" where
  "setitem t k v =
     (let n = int (length t); j = (if k < 0 then n + k else k)
      in if 0 \<le> j \<and> j < n then Inr (t[nat j := v]) else Inl IndexError)"

text \<open>
  \<^verbatim>\<open>data + noise\<close>, the sum of a frame and a matrix: cell by cell when the shapes agree,
  \<^verbatim>\<open>ValueError\<close> otherwise. The matrix is the sample drawn by
  \<^verbatim>\<open>np.random.normal(0, 10000, [len(data), 12])\<close>; it is an argument of the model.
\<close>

definition add_noise :: "dataframe \<Rightarrow> real list list \<Rightarrow> error + dataframe" where
  "add_noise df noise =
     (if length (columns df) = 12 \<and> length noise = length (rows df)
         \<and> list_all (\<lambda>r. length r = 12) noise
      then Inr (df\<lparr>rows := map2 (map2 (+)) (rows df) noise\<rparr>)
      else Inl ValueError)"

subsection \<open>The regression dataset\<close>

text \<open>The argument \<open>csv\<close> is what \<^verbatim>\<open>pd.read_csv(path)\<close> yields for the file at \<^verbatim>\<open>path\<close>.\<close>

record ODEDataset =
  data :: dataframe

definition ODEDataset_init :: "dataframe \<Rightarrow> error + ODEDataset" where
  "ODEDataset_init csv =
     (case drop_first_column csv of
        Inl e \<Rightarrow> Inl e
      | Inr d0 \<Rightarrow>
     (case log_columns x_cols (mask_lt_1 d0) of
        Inl e \<Rightarrow> Inl e
      | Inr d1 \<Rightarrow> Inr \<lparr>ODEDataset.data = d1\<rparr>))"

definition ODEDataset_len :: "ODEDataset \<Rightarrow> int" where
  "ODEDataset_len self = int (length (rows (ODEDataset.data self)))"

definition ODEDataset_getitem :: "ODEDataset \<Rightarrow> int \<Rightarrow> error + real list \<times> real list" where
  "ODEDataset_getitem self idx =
     (case iloc (ODEDataset.data self) idx of
        Inl e \<Rightarrow> Inl e
      | Inr row \<Rightarrow> Inr (take 6 row, take 6 (drop 6 row)))"

subsection \<open>The classifier datasets\<close>

text \<open>
  \<^verbatim>\<open>ODEDatasetClassifier\<close> and \<^verbatim>\<open>ODEDatasetClassifierNoisy\<close> have the same four
  attributes, so one record type holds an instance of either class.
\<close>

record ODEDatasetClassifier =
  atr :: int
  y_max :: "real option"
  y_min :: "real option"
  data :: dataframe

definition ODEDatasetClassifier_init :: "dataframe \<Rightarrow> int \<Rightarrow> error + ODEDatasetClassifier" where
  "ODEDatasetClassifier_init csv atr_arg =
     (case drop_first_column csv of
        Inl e \<Rightarrow> Inl e
      | Inr d0 \<Rightarrow>
     (case log_columns x_cols (mask_lt_1 d0) of
        Inl e \<Rightarrow> Inl e
      | Inr d1 \<Rightarrow>
     (case list_pop y_cols atr_arg of
        Inl e \<Rightarrow> Inl e
      | Inr ys \<Rightarrow>
     (case drop_columns ys d1 of
        Inl e \<Rightarrow> Inl e
      | Inr d2 \<Rightarrow>
     (case max_axis0_at 6 d2 of
        Inl e \<Rightarrow> Inl e
      | Inr mx \<Rightarrow>
     (case min_axis0_at 6 d2 of
        Inl e \<Rightarrow> Inl e
      | Inr mn \<Rightarrow>
          Inr \<lparr>atr = atr_arg, y_max = mx, y_min = mn, data = d2\<rparr>))))))"

definition ODEDatasetClassifierNoisy_init ::
  "dataframe \<Rightarrow> int \<Rightarrow> real list list \<Rightarrow> error + ODEDatasetClassifier" where
  "ODEDatasetClassifierNoisy_init csv atr_arg noise =
     (case drop_first_column csv of
        Inl e \<Rightarrow> Inl e
      | Inr d0 \<Rightarrow>
     (case add_noise d0 noise of
        Inl e \<Rightarrow> Inl e
      | Inr dn \<Rightarrow>
     (case log_columns x_cols (mask_lt_1 dn) of
        Inl e \<Rightarrow> Inl e
      | Inr d1 \<Rightarrow>
     (case list_pop y_cols atr_arg of
        Inl e \<Rightarrow> Inl e
      | Inr ys \<Rightarrow>
     (case drop_columns ys d1 of
        Inl e \<Rightarrow> Inl e
      | Inr d2 \<Rightarrow>
     (case max_axis0_at 6 d2 of
        Inl e \<Rightarrow> Inl e
      | Inr mx \<Rightarrow>
     (case min_axis0_at 6 d2 of
        Inl e \<Rightarrow> Inl e
      | Inr mn \<Rightarrow>
          Inr \<lparr>atr = atr_arg, y_max = mx, y_min = mn, data = d2\<rparr>)))))))"

text \<open>
  The call \<^verbatim>\<open>self.bracket(y)\<close> of \<^verbatim>\<open>__getitem__\<close>. When an attribute is NaN every
  comparison of the method is false and the method returns 0.
\<close>

definition ODEDatasetClassifier_self_bracket :: "ODEDatasetClassifier \<Rightarrow> real \<Rightarrow> int" where
  "ODEDatasetClassifier_self_bracket self y =
     (case (y_min self, y_max self) of
        (Some lo, Some hi) \<Rightarrow> ODEDatasetClassifier_bracket lo hi y
      | _ \<Rightarrow> 0)"

definition ODEDatasetClassifierNoisy_self_bracket :: "ODEDatasetClassifier \<Rightarrow> real \<Rightarrow> int" where
  "ODEDatasetClassifierNoisy_self_bracket self y =
     (case (y_min self, y_max self) of
        (Some lo, Some hi) \<Rightarrow> ODEDatasetClassifierNoisy_bracket lo hi y
      | _ \<Rightarrow> 0)"

definition ODEDatasetClassifier_getitem ::
  "ODEDatasetClassifier \<Rightarrow> int \<Rightarrow> error + real list \<times> real list" where
  "ODEDatasetClassifier_getitem self idx =
     (case iloc (ODEDatasetClassifier.data self) idx of
        Inl e \<Rightarrow> Inl e
      | Inr row \<Rightarrow>
          if length row \<le> 6 then Inl IndexError
          else
            (let x = take 6 row; y = row ! 6
             in case setitem (replicate 4 0) (ODEDatasetClassifier_self_bracket self y) 1 of
                  Inl e \<Rightarrow> Inl e
                | Inr y_tensor \<Rightarrow> Inr (x, y_tensor)))"

definition ODEDatasetClassifierNoisy_getitem ::
  "ODEDatasetClassifier \<Rightarrow> int \<Rightarrow> error + real list \<times> real list" where
  "ODEDatasetClassifierNoisy_getitem self idx =
     (case iloc (ODEDatasetClassifier.data self) idx of
        Inl e \<Rightarrow> Inl e
      | Inr row \<Rightarrow>
          if length row \<le> 6 then Inl IndexError
          else
            (let x = take 6 row; y = row ! 6
             in case setitem (replicate 4 0) (ODEDatasetClassifierNoisy_self_bracket self y) 1 of
                  Inl e \<Rightarrow> Inl e
                | Inr y_tensor \<Rightarrow> Inr (x, y_tensor)))"

subsection \<open>Devices of the proofs\<close>

text \<open>
  A transformation of every cell that may depend on the label of the cell's column.
  The clipping and the logarithms of the constructors are of this form.
\<close>

definition map_cells :: "(string \<Rightarrow> real \<Rightarrow> real) \<Rightarrow> dataframe \<Rightarrow> dataframe" where
  "map_cells f df =
     df\<lparr>rows := map (\<lambda>r. map (\<lambda>(n, v). f n v) (zip (columns df) r)) (rows df)\<rparr>"

text \<open>
  A file in the layout the script reads: an index column, the six \<open>x\<close> columns and the
  six \<open>y\<close> columns, here with two records; and one sample of the noise for it.
\<close>

definition example_csv :: dataframe where
  "example_csv =
     \<lparr>columns = ''Unnamed: 0'' # x_cols @ y_cols,
      rows = [[0, 1 / 2, 3, 1, 0, 1, 1, 2, 0, 5, 7, 1, 1],
              [1, 1, 1, 4, 1, 1, 1 / 4, 4, 1 / 2, 3, 15, 2, 9]]\<rparr>"

definition example_noise :: "real list list" where
  "example_noise =
     [[1, - 3, 0, 2, 0, 0, 0, 0, 1, - 10, 4, 0],
      [0, 0, - 4, 0, 0, 1, - 5, 0, 0, 5, - 2, 0]]"

text \<open>The same file with another index column.\<close>

definition example_csv_reindexed :: dataframe where
  "example_csv_reindexed =
     \<lparr>columns = ''id'' # x_cols @ y_cols,
      rows = [[100, 1 / 2, 3, 1, 0, 1, 1, 2, 0, 5, 7, 1, 1],
              [- 7, 1, 1, 4, 1, 1, 1 / 4, 4, 1 / 2, 3, 15, 2, 9]]\<rparr>"

text \<open>
  The invariant of a stored frame: it is rectangular, every cell of a logged column is
  at least 0 and every other cell is at least 1.
\<close>

definition stored_ok :: "dataframe \<Rightarrow> bool" where
  "stored_ok d =
     (wf_frame d
      \<and> list_all (\<lambda>r. list_all (\<lambda>(n, v). if n \<in> set x_cols then 0 \<le> v else 1 \<le> v)
                               (zip (columns d) r)) (rows d))"

section \<open>Properties of the data frame operations\<close>

lemma map_zip_relabel:
  "map (\<lambda>(n, v). f n v) (zip xs (map (\<lambda>(n, v). g n v) (zip xs ys)))
     = map (\<lambda>(n, v). f n (g n v)) (zip xs ys)"
  by (induction xs ys rule: list_induct2') auto

lemma map_zip_snd:
  "length xs = length ys \<Longrightarrow> map (\<lambda>(n, v). f v) (zip xs ys) = map f ys"
  by (induction xs ys rule: list_induct2) auto

lemma drop_first_column_wf:
  assumes "wf_frame df" and "columns df = c # cs"
  shows "drop_first_column df = Inr \<lparr>columns = cs, rows = map tl (rows df)\<rparr>"
proof -
  have c: "c \<notin> set cs" and d: "distinct cs"
    using assms by (auto simp: wf_frame_def)
  have cols: "filter (\<lambda>x. x \<notin> set [c]) (c # cs) = cs"
    using c by (auto simp: filter_id_conv)
  have row: "map snd (filter (\<lambda>(x, v). x \<notin> set [c]) (zip (c # cs) r)) = tl r"
    if "length r = length (c # cs)" for r :: "real list"
  proof -
    from that obtain v vs where r: "r = v # vs"
      by (cases r) auto
    have l: "length vs = length cs"
      using that r by simp
    have "filter (\<lambda>(x, v). x \<notin> set [c]) (zip cs vs) = zip cs vs"
      using c by (auto simp: filter_id_conv dest: set_zip_leftD)
    then show ?thesis
      using r l by simp
  qed
  have "map (\<lambda>r. map snd (filter (\<lambda>(x, v). x \<notin> set [c]) (zip (c # cs) r))) (rows df)
        = map tl (rows df)"
    using assms row by (auto simp: wf_frame_def list_all_iff)
  then show ?thesis
    using assms(2) cols by (simp add: drop_first_column_def drop_columns_def)
qed


lemma columns_map_cells: "columns (map_cells f df) = columns df"
  by (simp add: map_cells_def)

lemma wf_map_cells: "wf_frame df \<Longrightarrow> wf_frame (map_cells f df)"
  by (auto simp: map_cells_def wf_frame_def list_all_iff)

lemma map_cells_compose:
  "map_cells f (map_cells g df) = map_cells (\<lambda>n v. f n (g n v)) df"
  by (simp add: map_cells_def map_zip_relabel)

lemma mask_lt_1_cells:
  assumes "wf_frame df"
  shows "mask_lt_1 df = map_cells (\<lambda>n v. if v < 1 then 1 else v) df"
  using assms
  by (auto simp: mask_lt_1_def map_cells_def wf_frame_def list_all_iff map_zip_snd)

lemma map_cells_id:
  assumes "wf_frame df"
  shows "map_cells (\<lambda>n v. v) df = df"
proof -
  have "map (\<lambda>r. map (\<lambda>(n, v). v) (zip (columns df) r)) (rows df) = rows df"
    using assms by (auto simp: wf_frame_def list_all_iff map_zip_snd map_idI)
  then show ?thesis
    by (simp add: map_cells_def)
qed

lemma log_column_cells:
  "log_column c df =
     (if c \<in> set (columns df) then Inr (map_cells (\<lambda>n v. if n = c then ln v else v) df)
      else Inl (KeyError [c]))"
  by (simp add: log_column_def map_cells_def)

lemma log_columns_cells:
  assumes "wf_frame df" and "distinct ls" and "set ls \<subseteq> set (columns df)"
  shows "log_columns ls df = Inr (map_cells (\<lambda>n v. if n \<in> set ls then ln v else v) df)"
  using assms
proof (induction ls arbitrary: df)
  case Nil
  then show ?case by (simp add: map_cells_id)
next
  case (Cons c cs)
  let ?d = "map_cells (\<lambda>n v. if n = c then ln v else v) df"
  have step: "log_columns cs ?d = Inr (map_cells (\<lambda>n v. if n \<in> set cs then ln v else v) ?d)"
    using Cons.prems by (intro Cons.IH) (auto simp: columns_map_cells wf_map_cells)
  have both: "(\<lambda>n v. if n \<in> set cs then ln (if n = c then ln v else v) else (if n = c then ln v else v))
        = (\<lambda>n v. if n \<in> set (c # cs) then ln v else v)"
    using Cons.prems(2) by (auto simp: fun_eq_iff)
  have "map_cells (\<lambda>n v. if n \<in> set cs then ln v else v) ?d
        = map_cells (\<lambda>n v. if n \<in> set (c # cs) then ln v else v) df"
    unfolding map_cells_compose both ..
  with step show ?case
    using Cons.prems by (simp add: log_column_cells)
qed

lemma log_columns_Inr_subset:
  "log_columns ls df = Inr d \<Longrightarrow> set ls \<subseteq> set (columns df)"
proof (induction ls arbitrary: df)
  case Nil
  then show ?case by simp
next
  case (Cons c cs)
  from Cons.prems have c: "c \<in> set (columns df)"
    by (auto simp: log_column_cells split: if_splits)
  with Cons.prems
  have "log_columns cs (map_cells (\<lambda>n v. if n = c then ln v else v) df) = Inr d"
    by (simp add: log_column_cells)
  then have "set cs \<subseteq> set (columns (map_cells (\<lambda>n v. if n = c then ln v else v) df))"
    by (rule Cons.IH)
  with c show ?case
    by (simp add: columns_map_cells)
qed

lemma distinct_x_cols: "distinct x_cols"
  by (simp add: x_cols_def)

lemma length_filter_labels:
  "length xs = length ys \<Longrightarrow>
   length (filter (\<lambda>(c, v). P c) (zip xs ys)) = length (filter P xs)"
  by (induction xs ys rule: list_induct2) auto

lemma wf_mask_lt_1: "wf_frame df \<Longrightarrow> wf_frame (mask_lt_1 df)"
  by (simp add: mask_lt_1_cells wf_map_cells)

lemma wf_tail_frame:
  assumes "wf_frame df" and "columns df = c # cs"
  shows "wf_frame \<lparr>columns = cs, rows = map tl (rows df)\<rparr>"
  using assms by (auto simp: wf_frame_def list_all_iff)

text \<open>The cell-wise effect of the clipping followed by the six logarithms.\<close>

lemma clip_then_log:
  assumes "wf_frame d" and "set x_cols \<subseteq> set (columns d)"
  shows "log_columns x_cols (mask_lt_1 d)
         = Inr (map_cells (\<lambda>n v. if n \<in> set x_cols then ln (if v < 1 then 1 else v)
                                  else (if v < 1 then 1 else v)) d)"
proof -
  have "columns (mask_lt_1 d) = columns d"
    by (simp add: mask_lt_1_def)
  then have "log_columns x_cols (mask_lt_1 d)
        = Inr (map_cells (\<lambda>n v. if n \<in> set x_cols then ln v else v) (mask_lt_1 d))"
    using assms by (intro log_columns_cells) (simp_all add: wf_mask_lt_1 distinct_x_cols)
  also have "map_cells (\<lambda>n v. if n \<in> set x_cols then ln v else v) (mask_lt_1 d)
        = map_cells (\<lambda>n v. if n \<in> set x_cols then ln (if v < 1 then 1 else v)
                                  else (if v < 1 then 1 else v)) d"
    using assms(1) by (simp add: mask_lt_1_cells map_cells_compose)
  finally show ?thesis .
qed

lemma clip_then_log_Inr:
  assumes "wf_frame d" and "log_columns x_cols (mask_lt_1 d) = Inr d1"
  shows "d1 = map_cells (\<lambda>n v. if n \<in> set x_cols then ln (if v < 1 then 1 else v)
                                  else (if v < 1 then 1 else v)) d"
proof -
  have "set x_cols \<subseteq> set (columns d)"
    using log_columns_Inr_subset [OF assms(2)] by (simp add: mask_lt_1_def)
  from clip_then_log [OF assms(1) this] assms(2) show ?thesis
    by simp
qed

section \<open>The bracket and translate rules\<close>

text \<open>
  Claim C1. For all reals \<open>y\<close> and thresholds \<open>lo \<le> hi\<close> (the attributes \<^verbatim>\<open>y_min\<close> and
  \<^verbatim>\<open>y_max\<close>), \<^verbatim>\<open>bracket\<close> returns one of 0, 1, 2, 3, and it is monotonic
  non-decreasing in \<open>y\<close>. Stated for the method of \<^verbatim>\<open>lazy_classifier\<close> and for the
  method of \<^verbatim>\<open>ODEDatasetClassifier\<close>.
\<close>

theorem bracket_range_monotone:
  assumes "lo \<le> hi" and "y1 \<le> y2"
  shows "lazy_classifier_bracket lo hi y1 \<in> {0, 1, 2, 3}
       \<and> ODEDatasetClassifier_bracket lo hi y1 \<in> {0, 1, 2, 3}
       \<and> lazy_classifier_bracket lo hi y1 \<le> lazy_classifier_bracket lo hi y2
       \<and> ODEDatasetClassifier_bracket lo hi y1 \<le> ODEDatasetClassifier_bracket lo hi y2"
  using assms
  by (auto simp: lazy_classifier_bracket_def ODEDatasetClassifier_bracket_def Let_def)

theorem bracket_range_monotone_witness:
  "(0::real) \<le> 8 \<and> (3::real) \<le> 7
   \<and> lazy_classifier_bracket 0 8 3 \<in> {0, 1, 2, 3}
   \<and> ODEDatasetClassifier_bracket 0 8 3 \<in> {0, 1, 2, 3}
   \<and> lazy_classifier_bracket 0 8 3 \<le> lazy_classifier_bracket 0 8 7
   \<and> ODEDatasetClassifier_bracket 0 8 3 \<le> ODEDatasetClassifier_bracket 0 8 7
   \<and> lazy_classifier_bracket 0 8 3 = 1 \<and> lazy_classifier_bracket 0 8 7 = 3"
  using bracket_range_monotone [of 0 8 3 7]
  by (simp add: lazy_classifier_bracket_def Let_def)


lemma rne_of_int: "rne (of_int m) = m"
  by (simp add: rne_def Let_def)

lemma floor_log2_binade:
  assumes "2 powi e \<le> x" and "x < 2 powi (e + 1)"
  shows "\<lfloor>log 2 x\<rfloor> = e"
proof -
  have "0 < (2::real) powi e"
    by simp
  with assms(1) have x: "0 < x"
    by linarith
  have "(2::real) powr real_of_int e = 2 powi e"
    using powr_real_of_int' [of "2::real" e] by simp
  moreover have "(2::real) powr real_of_int (e + 1) = 2 powi (e + 1)"
    using powr_real_of_int' [of "2::real" "e + 1"] by simp
  ultimately show ?thesis
    using assms floor_log_eq_powr_iff [of x 2 e] x by simp
qed


lemma round_f64_normal:
  assumes "2 ^ 52 \<le> \<bar>m\<bar>" and "\<bar>m\<bar> < 2 ^ 53" and "- 1074 \<le> k" and "k \<le> 971"
  shows "round_f64 (of_int m * 2 powi k) = Fin (of_int m * 2 powi k)"
proof -
  let ?x = "real_of_int m * 2 powi k"
  have pos: "0 < (2::real) powi k"
    by simp
  have ax: "\<bar>?x\<bar> = real_of_int \<bar>m\<bar> * 2 powi k"
    by (simp add: abs_mult)
  have m0: "m \<noteq> 0"
    using assms(1) by auto
  then have x0: "?x \<noteq> 0"
    by simp
  have lo: "(2::real) ^ 52 \<le> real_of_int \<bar>m\<bar>"
    using assms(1) by (metis of_int_le_iff of_int_numeral of_int_power)
  have hi: "real_of_int \<bar>m\<bar> < 2 ^ 53"
    using assms(2) by (metis of_int_less_iff of_int_numeral of_int_power)
  have p52: "(2::real) ^ 52 * 2 powi k = 2 powi (52 + k)"
    using power_int_add [of "2::real" 52 k] by simp
  have p53: "(2::real) ^ 53 * 2 powi k = 2 powi (52 + k + 1)"
    using power_int_add [of "2::real" 53 k] by (simp add: add.commute add.left_commute)
  have "2 powi (52 + k) \<le> \<bar>?x\<bar>"
    unfolding ax using lo pos p52 by (metis mult_le_cancel_right_pos)
  moreover have "\<bar>?x\<bar> < 2 powi (52 + k + 1)"
    unfolding ax using hi pos p53 by (metis mult_less_cancel_right_pos)
  ultimately have "\<lfloor>log 2 \<bar>?x\<bar>\<rfloor> = 52 + k"
    by (rule floor_log2_binade)
  then have u: "ulp_exp ?x = k"
    using assms(3) by (simp add: ulp_exp_def)
  have q: "?x / 2 powi k = real_of_int m"
    by simp
  have "\<bar>?x\<bar> < 2 ^ 53 * 2 powi 971"
  proof -
    have "(2::real) powi k \<le> 2 powi 971"
      using assms(4) by (intro power_int_increasing) simp_all
    then have "real_of_int \<bar>m\<bar> * 2 powi k \<le> real_of_int \<bar>m\<bar> * 2 powi 971"
      by (intro mult_left_mono) simp_all
    also have "\<dots> < 2 ^ 53 * 2 powi 971"
      using hi by (intro mult_strict_right_mono) simp_all
    finally show ?thesis
      unfolding ax .
  qed
  moreover have "(2::real) ^ 53 * 2 powi 971 = 2 ^ 1024"
    by simp
  ultimately have b: "\<bar>?x\<bar> < 2 ^ 1024"
    by simp
  then have "\<not> 2 ^ 1024 \<le> ?x" "\<not> ?x \<le> - (2 ^ 1024)"
    by linarith+
  then show ?thesis
    using x0 by (simp add: round_f64_def u Let_def rne_of_int del: of_int_mult)
qed





lemma round_f64_binade:
  assumes "2 powi e \<le> \<bar>x\<bar>" and "\<bar>x\<bar> < 2 powi (e + 1)" and "- 1022 \<le> e"
  shows "round_f64 x =
     (let u = 2 powi (e - 52); r = of_int (rne (x / u)) * u
      in if 2 ^ 1024 \<le> r then PInf else if r \<le> - (2 ^ 1024) then NInf else Fin r)"
proof -
  have "0 < (2::real) powi e"
    by simp
  with assms(1) have "0 < \<bar>x\<bar>"
    by linarith
  then have "x \<noteq> 0"
    by simp
  moreover have "ulp_exp x = e - 52"
    using floor_log2_binade [OF assms(1,2)] assms(3) by (simp add: ulp_exp_def)
  ultimately show ?thesis
    by (simp add: round_f64_def)
qed

text \<open>
  Rounding alone has the same effect: for the two numbers after 1 the midpoint rounds
  to the upper one.
\<close>

lemma round_f64_tie_example:
  "round_f64 (2 + 3 / 2 ^ 52) = Fin (2 + 1 / 2 ^ 50)"
proof -
  have "rne ((2 + 3 / 2 ^ 52) / 2 powi (- 51)) = 2 ^ 52 + 2"
    by (simp add: rne_def Let_def power_int_minus)
  then show ?thesis
    using round_f64_binade [of 1 "2 + 3 / 2 ^ 52"]
    by (simp add: Let_def power_int_minus)
qed

lemma bracket_f64_rounding_example:
  "ODEDatasetClassifier_bracket_f64 (Fin (1 + 1 / 2 ^ 52)) (Fin (1 + 1 / 2 ^ 51))
     (Fin (1 + 1 / 2 ^ 51)) = 0"
proof -
  have a: "f64_add (Fin (1 + 1 / 2 ^ 52)) (Fin (1 + 1 / 2 ^ 51)) = Fin (2 + 1 / 2 ^ 50)"
    using round_f64_tie_example by simp
  have a': "f64_add (Fin (1 + 1 / 2 ^ 51)) (Fin (1 + 1 / 2 ^ 52)) = Fin (2 + 1 / 2 ^ 50)"
    using round_f64_tie_example by simp
  have b: "f64_div2 (Fin (2 + 1 / 2 ^ 50)) = Fin (1 + 1 / 2 ^ 51)"
    using round_f64_normal [of "2 ^ 52 + 2" "- 52"] by (simp add: power_int_minus)
  show ?thesis
    unfolding ODEDatasetClassifier_bracket_f64_def Let_def a b a'
    by simp
qed






text \<open>
  Claim C3, as stated: in every classifier model \<^verbatim>\<open>translate\<close> maps 0, 1, 2, 3 to
  "Low", "Medium-Low", "Medium-High", "High". This fails for \<^verbatim>\<open>lazy_classifier2\<close>,
  whose first case returns "Medium-Low".
\<close>

theorem translate_labels_counterexample:
  "\<not> (lazy_classifier2_translate 0 = Some ''Low''
      \<and> lazy_classifier2_translate 1 = Some ''Medium-Low''
      \<and> lazy_classifier2_translate 2 = Some ''Medium-High''
      \<and> lazy_classifier2_translate 3 = Some ''High'')"
  by (simp add: lazy_classifier2_translate_def)

text \<open>
  Claim C3, amended: in \<^verbatim>\<open>ViralKineticsDNNClassifier\<close> and in \<^verbatim>\<open>lazy_classifier\<close>,
  \<^verbatim>\<open>translate\<close> maps 0, 1, 2, 3 to the four pairwise different labels "Low",
  "Medium-Low", "Medium-High", "High"; in \<^verbatim>\<open>lazy_classifier2\<close> it maps them to
  "Medium-Low", "Medium-High", "High", "High", the label one bracket higher, with 2 and
  3 sharing "High".
\<close>

theorem translate_labels:
  "map ViralKineticsDNNClassifier_translate [0, 1, 2, 3]
     = [Some ''Low'', Some ''Medium-Low'', Some ''Medium-High'', Some ''High'']
   \<and> map lazy_classifier_translate [0, 1, 2, 3]
     = [Some ''Low'', Some ''Medium-Low'', Some ''Medium-High'', Some ''High'']
   \<and> map lazy_classifier2_translate [0, 1, 2, 3]
     = [Some ''Medium-Low'', Some ''Medium-High'', Some ''High'', Some ''High'']
   \<and> distinct [''Low'', ''Medium-Low'', ''Medium-High'', ''High'']
   \<and> lazy_classifier2_translate 2 = lazy_classifier2_translate 3"
  by (simp add: ViralKineticsDNNClassifier_translate_def lazy_classifier_translate_def
      lazy_classifier2_translate_def)

text \<open>
  Claim C9. The four \<^verbatim>\<open>bracket\<close> methods (of \<^verbatim>\<open>lazy_classifier\<close>,
  \<^verbatim>\<open>lazy_classifier2\<close>, \<^verbatim>\<open>ODEDatasetClassifier\<close> and \<^verbatim>\<open>ODEDatasetClassifierNoisy\<close>)
  compute the same function of \<open>y\<close> and of the two thresholds, with values in 0, 1, 2, 3.
\<close>

theorem bracket_four_copies_agree:
  "lazy_classifier2_bracket lo hi y = lazy_classifier_bracket lo hi y
   \<and> ODEDatasetClassifier_bracket lo hi y = lazy_classifier_bracket lo hi y
   \<and> ODEDatasetClassifierNoisy_bracket lo hi y = lazy_classifier_bracket lo hi y
   \<and> lazy_classifier_bracket lo hi y \<in> {0, 1, 2, 3}"
  by (simp add: lazy_classifier_bracket_def lazy_classifier2_bracket_def
      ODEDatasetClassifier_bracket_def ODEDatasetClassifierNoisy_bracket_def Let_def)

text \<open>
  Claim C10. \<^verbatim>\<open>translate\<close> is partial: it returns a label exactly for the predictions
  0, 1, 2 and 3, and \<^verbatim>\<open>None\<close> for every other prediction. Stated for the method of
  \<^verbatim>\<open>ViralKineticsDNNClassifier\<close> and for the method of \<^verbatim>\<open>lazy_classifier\<close>.
\<close>

theorem translate_partial:
  "(ViralKineticsDNNClassifier_translate p =
      (if p \<in> {0, 1, 2, 3} then Some ([''Low'', ''Medium-Low'', ''Medium-High'', ''High''] ! nat p)
       else None))
   \<and> (lazy_classifier_translate p =
      (if p \<in> {0, 1, 2, 3} then Some ([''Low'', ''Medium-Low'', ''Medium-High'', ''High''] ! nat p)
       else None))"
  by (auto simp: ViralKineticsDNNClassifier_translate_def lazy_classifier_translate_def)

theorem translate_partial_witness:
  "ViralKineticsDNNClassifier_translate 7 = None
   \<and> lazy_classifier_translate (- 1) = None
   \<and> ViralKineticsDNNClassifier_translate 2 = Some ''Medium-High''
   \<and> lazy_classifier_translate 3 = Some ''High''"
  using translate_partial [of 7] translate_partial [of "- 1"] translate_partial [of 2]
    translate_partial [of 3]
  by simp

section \<open>The dataset constructors and item access\<close>

lemma ODEDataset_init_cells:
  assumes "wf_frame csv" and "columns csv = c0 # cs" and "set x_cols \<subseteq> set cs"
  shows "ODEDataset_init csv =
     Inr \<lparr>ODEDataset.data =
            map_cells (\<lambda>n v. if n \<in> set x_cols then ln (if v < 1 then 1 else v)
                              else (if v < 1 then 1 else v))
              \<lparr>columns = cs, rows = map tl (rows csv)\<rparr>\<rparr>"
  using assms
  by (simp add: ODEDataset_init_def drop_first_column_wf clip_then_log wf_tail_frame)

lemma example_csv_wf: "wf_frame example_csv"
  by (simp add: wf_frame_def example_csv_def x_cols_def y_cols_def)

lemma drop_after_cells:
  "map snd (filter (\<lambda>(c, v). P c) (zip xs (map (\<lambda>(n, v). f n v) (zip xs ys))))
     = map (\<lambda>(n, v). f n v) (filter (\<lambda>(c, v). P c) (zip xs ys))"
  by (induction xs ys rule: list_induct2') auto

lemma drop_columns_map_cells:
  assumes "set ls \<subseteq> set (columns d)"
  shows "drop_columns ls (map_cells f d) =
     Inr \<lparr>columns = filter (\<lambda>c. c \<notin> set ls) (columns d),
          rows = map (\<lambda>r. map (\<lambda>(n, v). f n v)
                              (filter (\<lambda>(c, v). c \<notin> set ls) (zip (columns d) r)))
                     (rows d)\<rparr>"
proof -
  have "filter (\<lambda>l. l \<notin> set (columns d)) ls = []"
    using assms by (auto simp: filter_empty_conv)
  then show ?thesis
    by (simp add: drop_columns_def map_cells_def drop_after_cells comp_def)
qed

lemma drop_columns_Inr_subset:
  "drop_columns ls d = Inr d' \<Longrightarrow> set ls \<subseteq> set (columns d)"
  by (auto simp: drop_columns_def filter_empty_conv split: list.splits)

lemma fold_min_le: "fold min vs (v::real) \<le> v"
proof (induction vs arbitrary: v)
  case Nil
  show ?case by simp
next
  case (Cons a vs)
  have "fold min vs (min a v) \<le> min a v"
    by (rule Cons.IH)
  then show ?case by simp
qed

lemma fold_max_ge: "(v::real) \<le> fold max vs v"
proof (induction vs arbitrary: v)
  case Nil
  show ?case by simp
next
  case (Cons a vs)
  have "max a v \<le> fold max vs (max a v)"
    by (rule Cons.IH)
  then show ?case by simp
qed

lemma reduce_min_le_max:
  "reduce min vs = Some lo \<Longrightarrow> reduce max vs = Some hi \<Longrightarrow> lo \<le> hi"
  by (cases vs) (auto intro: order_trans [OF fold_min_le fold_max_ge])

lemma reduce_Some:
  "vs \<noteq> [] \<Longrightarrow> \<exists>m. reduce f vs = Some m"
  by (cases vs) auto

text \<open>What a successful construction of a classifier dataset has computed.\<close>

lemma ODEDatasetClassifier_init_Inr:
  assumes "wf_frame csv" and "ODEDatasetClassifier_init csv a = Inr ds"
  shows "\<exists>c0 cs ys. columns csv = c0 # cs \<and> set x_cols \<subseteq> set cs
           \<and> list_pop y_cols a = Inr ys \<and> set ys \<subseteq> set cs
           \<and> ODEDatasetClassifier.data ds =
               \<lparr>columns = filter (\<lambda>c. c \<notin> set ys) cs,
                rows = map (\<lambda>r. map (\<lambda>(n, v). if n \<in> set x_cols then ln (if v < 1 then 1 else v)
                                               else (if v < 1 then 1 else v))
                                (filter (\<lambda>(c, v). c \<notin> set ys) (zip cs (tl r))))
                           (rows csv)\<rparr>
           \<and> 6 < length (columns (ODEDatasetClassifier.data ds))
           \<and> y_max ds = reduce max (column_at 6 (ODEDatasetClassifier.data ds))
           \<and> y_min ds = reduce min (column_at 6 (ODEDatasetClassifier.data ds))
           \<and> atr ds = a"
proof (cases "columns csv")
  case Nil
  then show ?thesis
    using assms(2) by (simp add: ODEDatasetClassifier_init_def drop_first_column_def)
next
  case (Cons c0 cs)
  let ?d0 = "\<lparr>columns = cs, rows = map tl (rows csv)\<rparr>"
  let ?F = "\<lambda>n v. if n \<in> set x_cols then ln (if v < 1 then 1 else v)
                   else (if v < 1 then 1 else v)"
  have d0: "drop_first_column csv = Inr ?d0"
    using assms(1) Cons by (rule drop_first_column_wf)
  have wf0: "wf_frame ?d0"
    using assms(1) Cons by (rule wf_tail_frame)
  from assms(2) d0 obtain d1 where l: "log_columns x_cols (mask_lt_1 ?d0) = Inr d1"
    by (auto simp: ODEDatasetClassifier_init_def split: sum.splits)
  have d1: "d1 = map_cells ?F ?d0"
    using wf0 l by (rule clip_then_log_Inr)
  have x: "set x_cols \<subseteq> set cs"
    using log_columns_Inr_subset [OF l] by (simp add: mask_lt_1_def)
  from assms(2) d0 l obtain ys where p: "list_pop y_cols a = Inr ys"
    by (auto simp: ODEDatasetClassifier_init_def split: sum.splits)
  from assms(2) d0 l p obtain d2 where dr: "drop_columns ys d1 = Inr d2"
    by (auto simp: ODEDatasetClassifier_init_def split: sum.splits)
  have y: "set ys \<subseteq> set cs"
    using drop_columns_Inr_subset [OF dr] d1 by (simp add: columns_map_cells)
  have d2: "d2 = \<lparr>columns = filter (\<lambda>c. c \<notin> set ys) cs,
                rows = map (\<lambda>r. map (\<lambda>(n, v). ?F n v)
                                (filter (\<lambda>(c, v). c \<notin> set ys) (zip cs (tl r))))
                           (rows csv)\<rparr>"
    using dr y unfolding d1 by (simp add: drop_columns_map_cells comp_def)
  from assms(2) d0 l p dr
  have rest: "6 < length (columns d2) \<and> ds = \<lparr>atr = a, y_max = reduce max (column_at 6 d2),
                y_min = reduce min (column_at 6 d2), data = d2\<rparr>"
    by (auto simp: ODEDatasetClassifier_init_def max_axis0_at_def min_axis0_at_def
             split: sum.splits if_splits)
  then have "ODEDatasetClassifier.data ds = d2"
    by simp
  with Cons x p y d2 rest show ?thesis
    by simp
qed

lemma ODEDatasetClassifier_init_wf:
  assumes "wf_frame csv" and "ODEDatasetClassifier_init csv a = Inr ds"
  shows "wf_frame (ODEDatasetClassifier.data ds)"
proof -
  from ODEDatasetClassifier_init_Inr [OF assms] obtain c0 cs ys where
    c: "columns csv = c0 # cs" and
    d: "ODEDatasetClassifier.data ds =
               \<lparr>columns = filter (\<lambda>c. c \<notin> set ys) cs,
                rows = map (\<lambda>r. map (\<lambda>(n, v). if n \<in> set x_cols then ln (if v < 1 then 1 else v)
                                               else (if v < 1 then 1 else v))
                                (filter (\<lambda>(c, v). c \<notin> set ys) (zip cs (tl r))))
                           (rows csv)\<rparr>"
    by blast
  have "length (tl r) = length cs" if "r \<in> set (rows csv)" for r
    using assms(1) c that by (auto simp: wf_frame_def list_all_iff)
  then have "length (filter (\<lambda>(c, v). c \<notin> set ys) (zip cs (tl r)))
             = length (filter (\<lambda>c. c \<notin> set ys) cs)" if "r \<in> set (rows csv)" for r
    using that by (simp add: length_filter_labels)
  moreover have "distinct cs"
    using assms(1) c by (simp add: wf_frame_def)
  ultimately show ?thesis
    unfolding d by (simp add: wf_frame_def list_all_iff)
qed

lemma bracket_in_range: "ODEDatasetClassifier_bracket lo hi y \<in> {0, 1, 2, 3}"
  by (simp add: ODEDatasetClassifier_bracket_def Let_def)

lemma setitem_one_hot:
  assumes "k \<in> {0, 1, 2, 3}"
  shows "setitem (replicate 4 0) k 1
         = Inr [if k = 0 then 1 else 0, if k = 1 then 1 else 0,
                if k = 2 then 1 else 0, if k = 3 then 1 else 0]"
  using assms by (auto simp: setitem_def numeral_eq_Suc)

lemma selected_cell:
  assumes "length vs = 12" and "list_pop y_cols a = Inr ys"
  shows "map (\<lambda>(n, v). if n \<in> set x_cols then ln (if v < 1 then 1 else v)
                         else (if v < 1 then 1 else v))
             (filter (\<lambda>(c, v). c \<notin> set ys) (zip (x_cols @ y_cols) vs)) ! 6
         = (if vs ! (6 + nat (if a < 0 then 6 + a else a)) < (1::real) then 1
            else vs ! (6 + nat (if a < 0 then 6 + a else a)))"
proof -
  let ?j = "if a < 0 then 6 + a else a"
  from assms(1) obtain v0 v1 v2 v3 v4 v5 v6 v7 v8 v9 v10 v11 where
    vs: "vs = [v0, v1, v2, v3, v4, v5, v6, v7, v8, v9, v10, v11]"
    by (auto simp: numeral_eq_Suc length_Suc_conv)
  have l: "length y_cols = 6"
    by (simp add: y_cols_def)
  from assms(2) have j: "0 \<le> ?j" "?j < 6"
    and ys: "ys = take (nat ?j) y_cols @ drop (Suc (nat ?j)) y_cols"
    by (auto simp: list_pop_def Let_def l split: if_splits)
  from j have "nat ?j \<in> {0, 1, 2, 3, 4, 5}"
    by auto
  then consider "nat ?j = 0" | "nat ?j = 1" | "nat ?j = 2" | "nat ?j = 3" | "nat ?j = 4"
    | "nat ?j = 5"
    by auto
  then show ?thesis
  proof cases
    case 1
    show ?thesis unfolding ys 1 vs by (simp add: x_cols_def y_cols_def)
  next
    case 2
    show ?thesis unfolding ys 2 vs by (simp add: x_cols_def y_cols_def)
  next
    case 3
    show ?thesis unfolding ys 3 vs by (simp add: x_cols_def y_cols_def)
  next
    case 4
    show ?thesis unfolding ys 4 vs by (simp add: x_cols_def y_cols_def)
  next
    case 5
    show ?thesis unfolding ys 5 vs by (simp add: x_cols_def y_cols_def)
  next
    case 6
    show ?thesis unfolding ys 6 vs by (simp add: x_cols_def y_cols_def)
  qed
qed

lemma iloc_valid_nth:
  assumes "- int (length (rows df)) \<le> idx" and "idx < int (length (rows df))"
  shows "iloc df idx
           = Inr (rows df ! nat (if idx < 0 then int (length (rows df)) + idx else idx))"
    and "nat (if idx < 0 then int (length (rows df)) + idx else idx) < length (rows df)"
  using assms by (auto simp: iloc_def Let_def)

text \<open>
  Claim C5. For a dataset built by the constructor of \<^verbatim>\<open>ODEDatasetClassifier\<close> and an
  index in range (from \<open>- len\<close> up to \<open>len - 1\<close>), \<^verbatim>\<open>__getitem__\<close> returns, and its
  label has four entries: the entry at position \<open>bracket(y)\<close> is 1 and the other three
  are 0, where \<open>y\<close> is the cell at position 6 of the record and the thresholds are the
  stored \<^verbatim>\<open>y_min\<close> and \<^verbatim>\<open>y_max\<close>. For a file in the layout of the script (the index
  column, the six \<open>x\<close> columns, the six \<open>y\<close> columns) that cell is the clipped cell of
  the post column selected by \<^verbatim>\<open>atr\<close>.
\<close>

theorem getitem_one_hot:
  assumes "wf_frame csv" and "ODEDatasetClassifier_init csv a = Inr ds"
    and "- int (length (rows (ODEDatasetClassifier.data ds))) \<le> idx"
    and "idx < int (length (rows (ODEDatasetClassifier.data ds)))"
  shows "\<exists>row lo hi k.
           iloc (ODEDatasetClassifier.data ds) idx = Inr row \<and> 6 < length row
         \<and> y_min ds = Some lo \<and> y_max ds = Some hi \<and> lo \<le> hi
         \<and> k = ODEDatasetClassifier_bracket lo hi (row ! 6) \<and> k \<in> {0, 1, 2, 3}
         \<and> ODEDatasetClassifier_getitem ds idx
             = Inr (take 6 row, [if k = 0 then 1 else 0, if k = 1 then 1 else 0,
                                 if k = 2 then 1 else 0, if k = 3 then 1 else 0])
         \<and> (columns csv = c0 # x_cols @ y_cols \<longrightarrow>
              row ! 6 =
                (let v = rows csv ! nat (if idx < 0 then int (length (rows csv)) + idx else idx)
                           ! (7 + nat (if a < 0 then 6 + a else a))
                 in if v < 1 then 1 else v))"
proof -
  let ?d = "ODEDatasetClassifier.data ds"
  let ?i = "nat (if idx < 0 then int (length (rows ?d)) + idx else idx)"
  let ?row = "rows ?d ! ?i"
  note il = iloc_valid_nth [OF assms(3,4)]
  have mem: "?row \<in> set (rows ?d)"
    using il(2) by simp
  from ODEDatasetClassifier_init_Inr [OF assms(1,2)] obtain c0' cs ys where
    c: "columns csv = c0' # cs" and p: "list_pop y_cols a = Inr ys" and
    d: "?d = \<lparr>columns = filter (\<lambda>c. c \<notin> set ys) cs,
                rows = map (\<lambda>r. map (\<lambda>(n, v). if n \<in> set x_cols then ln (if v < 1 then 1 else v)
                                               else (if v < 1 then 1 else v))
                                (filter (\<lambda>(c, v). c \<notin> set ys) (zip cs (tl r))))
                           (rows csv)\<rparr>" and
    six: "6 < length (columns ?d)" and
    mx: "y_max ds = reduce max (column_at 6 ?d)" and
    mn: "y_min ds = reduce min (column_at 6 ?d)"
    by blast
  have len: "6 < length ?row"
    using ODEDatasetClassifier_init_wf [OF assms(1,2)] mem six
    by (auto simp: wf_frame_def list_all_iff)
  have ne: "column_at 6 ?d \<noteq> []"
    using mem by (auto simp: column_at_def)
  from reduce_Some [OF ne] mn obtain lo where lo: "y_min ds = Some lo"
    by metis
  from reduce_Some [OF ne] mx obtain hi where hi: "y_max ds = Some hi"
    by metis
  have le: "lo \<le> hi"
    using lo hi mn mx reduce_min_le_max by metis
  let ?k = "ODEDatasetClassifier_bracket lo hi (?row ! 6)"
  have g: "ODEDatasetClassifier_getitem ds idx
             = Inr (take 6 ?row, [if ?k = 0 then 1 else 0, if ?k = 1 then 1 else 0,
                                 if ?k = 2 then 1 else 0, if ?k = 3 then 1 else 0])"
    using il(1) len lo hi setitem_one_hot [OF bracket_in_range, of lo hi "?row ! 6"]
    by (simp add: ODEDatasetClassifier_getitem_def ODEDatasetClassifier_self_bracket_def Let_def)
  have sel: "?row ! 6 =
                (let v = rows csv ! nat (if idx < 0 then int (length (rows csv)) + idx else idx)
                           ! (7 + nat (if a < 0 then 6 + a else a))
                 in if v < 1 then 1 else v)"
    if lay: "columns csv = c0 # x_cols @ y_cols"
  proof -
    have cs: "cs = x_cols @ y_cols"
      using c lay by simp
    have n: "length (rows ?d) = length (rows csv)"
      unfolding d by simp
    let ?r = "rows csv ! ?i"
    have i: "?i < length (rows csv)"
      using il(2) n by simp
    then have "?r \<in> set (rows csv)"
      by simp
    then have lr: "length ?r = 13"
      using assms(1) lay by (auto simp: wf_frame_def list_all_iff x_cols_def y_cols_def)
    then have lt: "length (tl ?r) = 12"
      by simp
    have j: "6 + nat (if a < 0 then 6 + a else a) < length (tl ?r)"
      using p lt by (auto simp: list_pop_def Let_def y_cols_def split: if_splits)
    have "?row = map (\<lambda>(n, v). if n \<in> set x_cols then ln (if v < 1 then 1 else v)
                                               else (if v < 1 then 1 else v))
                    (filter (\<lambda>(c, v). c \<notin> set ys) (zip (x_cols @ y_cols) (tl ?r)))"
      using i unfolding d cs by simp
    then have "?row ! 6 = (if tl ?r ! (6 + nat (if a < 0 then 6 + a else a)) < 1 then 1
            else tl ?r ! (6 + nat (if a < 0 then 6 + a else a)))"
      using selected_cell [OF lt p] by simp
    also have "tl ?r ! (6 + nat (if a < 0 then 6 + a else a))
               = ?r ! (7 + nat (if a < 0 then 6 + a else a))"
      using nth_tl [OF j] by simp
    finally show ?thesis
      unfolding n by (simp add: Let_def)
  qed
  from il(1) len lo hi le g sel bracket_in_range [of lo hi "?row ! 6"] show ?thesis
    by blast
qed

lemma example_classifier:
  "ODEDatasetClassifier_init example_csv 3 =
     Inr \<lparr>atr = 3, y_max = Some 15, y_min = Some 7,
          data = \<lparr>columns = x_cols @ [''yVirus''],
                  rows = [[0, ln 3, 0, 0, 0, 0, 7], [0, 0, ln 4, 0, 0, 0, 15]]\<rparr>\<rparr>"
  by (simp add: ODEDatasetClassifier_init_def drop_first_column_def drop_columns_def
      example_csv_def x_cols_def y_cols_def mask_lt_1_def log_column_def list_pop_def
      max_axis0_at_def min_axis0_at_def column_at_def)

theorem getitem_one_hot_witness:
  "wf_frame example_csv
   \<and> ODEDatasetClassifier_init example_csv 3 =
       Inr \<lparr>atr = 3, y_max = Some 15, y_min = Some 7,
            data = \<lparr>columns = x_cols @ [''yVirus''],
                    rows = [[0, ln 3, 0, 0, 0, 0, 7], [0, 0, ln 4, 0, 0, 0, 15]]\<rparr>\<rparr>
   \<and> - int (length [[0, ln 3, 0, 0, 0, 0, 7], [0, 0, ln 4, 0, 0, 0, 15 :: real]]) \<le> - 1
   \<and> (- 1 :: int) < int (length [[0, ln 3, 0, 0, 0, 0, 7], [0, 0, ln 4, 0, 0, 0, 15 :: real]])
   \<and> columns example_csv = ''Unnamed: 0'' # x_cols @ y_cols
   \<and> ODEDatasetClassifier_getitem
        \<lparr>atr = 3, y_max = Some 15, y_min = Some 7,
         data = \<lparr>columns = x_cols @ [''yVirus''],
                 rows = [[0, ln 3, 0, 0, 0, 0, 7], [0, 0, ln 4, 0, 0, 0, 15]]\<rparr>\<rparr> (- 1)
       = Inr ([0, 0, ln 4, 0, 0, 0], [0, 0, 0, 1])"
  using getitem_one_hot [OF example_csv_wf example_classifier, of "- 1" "''Unnamed: 0''"]
    example_csv_wf example_classifier
  by (simp add: iloc_def ODEDatasetClassifier_bracket_def example_csv_def)

lemma map2_tl_cons:
  "map tl (map2 (\<lambda>r nr. hd r # f (tl r) nr) rs ns) = map2 f (map tl rs) ns"
  by (induction rs ns rule: list_induct2') auto

lemma noisy_init_eq:
  assumes "wf_frame csv" and "length (columns csv) = 13"
    and "length noise = length (rows csv)" and "list_all (\<lambda>r. length r = 12) noise"
  shows "ODEDatasetClassifierNoisy_init csv a noise
         = ODEDatasetClassifier_init
             (csv\<lparr>rows := map2 (\<lambda>r nr. hd r # map2 (+) (tl r) nr) (rows csv) noise\<rparr>) a"
    and "wf_frame (csv\<lparr>rows := map2 (\<lambda>r nr. hd r # map2 (+) (tl r) nr) (rows csv) noise\<rparr>)"
proof -
  let ?csv = "csv\<lparr>rows := map2 (\<lambda>r nr. hd r # map2 (+) (tl r) nr) (rows csv) noise\<rparr>"
  from assms(2) obtain c0 cs where c: "columns csv = c0 # cs"
    by (cases "columns csv") auto
  have cs: "length cs = 12"
    using assms(2) c by simp
  have "length (hd r # map2 (+) (tl r) nr) = 13"
    if "(r, nr) \<in> set (zip (rows csv) noise)" for r nr
  proof -
    have "length r = 13" "length nr = 12"
      using that assms(1,2,4) by (auto simp: wf_frame_def list_all_iff dest: set_zip_leftD set_zip_rightD)
    then show ?thesis by simp
  qed
  then show wf: "wf_frame ?csv"
    using assms(1,2) by (auto simp: wf_frame_def list_all_iff)
  have c': "columns ?csv = c0 # cs"
    using c by simp
  have d0: "drop_first_column csv = Inr \<lparr>columns = cs, rows = map tl (rows csv)\<rparr>"
    using assms(1) c by (rule drop_first_column_wf)
  have t: "map tl (rows ?csv) = map2 (map2 (+)) (map tl (rows csv)) noise"
    using map2_tl_cons [of "map2 (+)" "rows csv" noise] by simp
  have "drop_first_column ?csv = Inr \<lparr>columns = cs, rows = map tl (rows ?csv)\<rparr>"
    using wf c' by (rule drop_first_column_wf)
  then have d0': "drop_first_column ?csv
       = Inr \<lparr>columns = cs, rows = map2 (map2 (+)) (map tl (rows csv)) noise\<rparr>"
    unfolding t .
  have n: "add_noise \<lparr>columns = cs, rows = map tl (rows csv)\<rparr> noise
       = Inr \<lparr>columns = cs, rows = map2 (map2 (+)) (map tl (rows csv)) noise\<rparr>"
    using cs assms(3,4) by (simp add: add_noise_def)
  show "ODEDatasetClassifierNoisy_init csv a noise = ODEDatasetClassifier_init ?csv a"
    unfolding ODEDatasetClassifierNoisy_init_def ODEDatasetClassifier_init_def d0 d0'
    by (simp add: n)
qed

lemma noisy_init_Inr_shape:
  assumes "wf_frame csv" and "ODEDatasetClassifierNoisy_init csv a noise = Inr ds"
  shows "length (columns csv) = 13 \<and> length noise = length (rows csv)
         \<and> list_all (\<lambda>r. length r = 12) noise"
proof (cases "columns csv")
  case Nil
  then show ?thesis
    using assms(2) by (simp add: ODEDatasetClassifierNoisy_init_def drop_first_column_def)
next
  case (Cons c0 cs)
  have d0: "drop_first_column csv = Inr \<lparr>columns = cs, rows = map tl (rows csv)\<rparr>"
    using assms(1) Cons by (rule drop_first_column_wf)
  from assms(2) obtain dn where "add_noise \<lparr>columns = cs, rows = map tl (rows csv)\<rparr> noise = Inr dn"
    unfolding ODEDatasetClassifierNoisy_init_def d0 by (auto split: sum.splits)
  then show ?thesis
    using Cons by (auto simp: add_noise_def split: if_splits)
qed

text \<open>
  Claim C4. The constructor of \<^verbatim>\<open>ODEDataset\<close> first replaces every cell below 1 by 1 and
  then takes the natural logarithm of exactly the six columns \<^verbatim>\<open>xTarget\<close>,
  \<^verbatim>\<open>xPre-Infected\<close>, \<^verbatim>\<open>xInfected\<close>, \<^verbatim>\<open>xVirus\<close>, \<^verbatim>\<open>xCDE8e\<close>, \<^verbatim>\<open>xCD8m\<close>; every other
  column, so each of the six post columns, is stored clipped and without logarithm.
  The frame \<open>csv\<close> is a parsed file: an index column \<open>c0\<close> and then columns \<open>cs\<close> that
  contain the six pre columns. The constructor of \<^verbatim>\<open>ODEDatasetClassifier\<close> stores the
  same cells, of the columns it keeps.
\<close>

theorem init_clip_then_log:
  assumes "wf_frame csv" and "columns csv = c0 # cs" and "set x_cols \<subseteq> set cs"
  shows "ODEDataset_init csv =
     Inr \<lparr>ODEDataset.data =
           \<lparr>columns = cs,
            rows = map (\<lambda>r. map (\<lambda>(n, v). if n \<in> set x_cols then ln (if v < 1 then 1 else v)
                                           else (if v < 1 then 1 else v))
                                (zip cs (tl r)))
                       (rows csv)\<rparr>\<rparr>
   \<and> (ODEDatasetClassifier_init csv a = Inr ds \<longrightarrow>
        (\<exists>ys. list_pop y_cols a = Inr ys \<and> set ys \<subseteq> set cs
           \<and> ODEDatasetClassifier.data ds =
               \<lparr>columns = filter (\<lambda>c. c \<notin> set ys) cs,
                rows = map (\<lambda>r. map (\<lambda>(n, v). if n \<in> set x_cols then ln (if v < 1 then 1 else v)
                                               else (if v < 1 then 1 else v))
                                (filter (\<lambda>(c, v). c \<notin> set ys) (zip cs (tl r))))
                           (rows csv)\<rparr>))"
proof
  show "ODEDataset_init csv =
     Inr \<lparr>ODEDataset.data =
           \<lparr>columns = cs,
            rows = map (\<lambda>r. map (\<lambda>(n, v). if n \<in> set x_cols then ln (if v < 1 then 1 else v)
                                           else (if v < 1 then 1 else v))
                                (zip cs (tl r)))
                       (rows csv)\<rparr>\<rparr>"
    using ODEDataset_init_cells [OF assms] by (simp add: map_cells_def comp_def)
  show "ODEDatasetClassifier_init csv a = Inr ds \<longrightarrow>
        (\<exists>ys. list_pop y_cols a = Inr ys \<and> set ys \<subseteq> set cs
           \<and> ODEDatasetClassifier.data ds =
               \<lparr>columns = filter (\<lambda>c. c \<notin> set ys) cs,
                rows = map (\<lambda>r. map (\<lambda>(n, v). if n \<in> set x_cols then ln (if v < 1 then 1 else v)
                                               else (if v < 1 then 1 else v))
                                (filter (\<lambda>(c, v). c \<notin> set ys) (zip cs (tl r))))
                           (rows csv)\<rparr>)"
  proof
    assume "ODEDatasetClassifier_init csv a = Inr ds"
    from ODEDatasetClassifier_init_Inr [OF assms(1) this] obtain c0' cs' ys where
      c: "columns csv = c0' # cs'" and p: "list_pop y_cols a = Inr ys" and y: "set ys \<subseteq> set cs'"
      and d: "ODEDatasetClassifier.data ds =
               \<lparr>columns = filter (\<lambda>c. c \<notin> set ys) cs',
                rows = map (\<lambda>r. map (\<lambda>(n, v). if n \<in> set x_cols then ln (if v < 1 then 1 else v)
                                               else (if v < 1 then 1 else v))
                                (filter (\<lambda>(c, v). c \<notin> set ys) (zip cs' (tl r))))
                           (rows csv)\<rparr>"
      by blast
    have "cs' = cs"
      using c assms(2) by simp
    with p y d show "\<exists>ys. list_pop y_cols a = Inr ys \<and> set ys \<subseteq> set cs
           \<and> ODEDatasetClassifier.data ds =
               \<lparr>columns = filter (\<lambda>c. c \<notin> set ys) cs,
                rows = map (\<lambda>r. map (\<lambda>(n, v). if n \<in> set x_cols then ln (if v < 1 then 1 else v)
                                               else (if v < 1 then 1 else v))
                                (filter (\<lambda>(c, v). c \<notin> set ys) (zip cs (tl r))))
                           (rows csv)\<rparr>"
      by blast
  qed
qed

theorem init_clip_then_log_witness:
  "wf_frame example_csv
   \<and> columns example_csv = ''Unnamed: 0'' # x_cols @ y_cols
   \<and> set x_cols \<subseteq> set (x_cols @ y_cols)
   \<and> ODEDataset_init example_csv =
       Inr \<lparr>ODEDataset.data =
             \<lparr>columns = x_cols @ y_cols,
              rows = [[0, ln 3, 0, 0, 0, 0, 2, 1, 5, 7, 1, 1],
                      [0, 0, ln 4, 0, 0, 0, 4, 1, 3, 15, 2, 9]]\<rparr>\<rparr>
   \<and> ODEDatasetClassifier_init example_csv 3 =
       Inr \<lparr>atr = 3, y_max = Some 15, y_min = Some 7,
            data = \<lparr>columns = x_cols @ [''yVirus''],
                    rows = [[0, ln 3, 0, 0, 0, 0, 7], [0, 0, ln 4, 0, 0, 0, 15]]\<rparr>\<rparr>"
proof -
  have c: "columns example_csv = ''Unnamed: 0'' # x_cols @ y_cols"
    by (simp add: example_csv_def)
  have s: "set x_cols \<subseteq> set (x_cols @ y_cols)"
    by simp
  have r: "rows example_csv = [[0, 1 / 2, 3, 1, 0, 1, 1, 2, 0, 5, 7, 1, 1],
              [1, 1, 1, 4, 1, 1, 1 / 4, 4, 1 / 2, 3, 15, 2, 9]]"
    by (simp add: example_csv_def)
  have "ODEDataset_init example_csv =
       Inr \<lparr>ODEDataset.data =
             \<lparr>columns = x_cols @ y_cols,
              rows = [[0, ln 3, 0, 0, 0, 0, 2, 1, 5, 7, 1, 1],
                      [0, 0, ln 4, 0, 0, 0, 4, 1, 3, 15, 2, 9]]\<rparr>\<rparr>"
    using conjunct1 [OF init_clip_then_log [OF example_csv_wf c s]] r
    by (simp add: x_cols_def y_cols_def)
  with example_csv_wf c s example_classifier show ?thesis
    by simp
qed

section \<open>Noise, the stored invariant and the index column\<close>

text \<open>
  Claim C6. For a file with an index column and twelve fields, and a noise matrix with
  one entry per field of every record, the constructor of \<^verbatim>\<open>ODEDatasetClassifierNoisy\<close>
  yields what the constructor of \<^verbatim>\<open>ODEDatasetClassifier\<close> yields on the file whose
  twelve fields have the noise added: the noise is added before the clipping and the
  logarithms, which are those of the other constructor.
\<close>

theorem noisy_is_classifier_of_noised:
  assumes "wf_frame csv" and "length (columns csv) = 13"
    and "length noise = length (rows csv)" and "list_all (\<lambda>r. length r = 12) noise"
  shows "ODEDatasetClassifierNoisy_init csv a noise
         = ODEDatasetClassifier_init
             (csv\<lparr>rows := map2 (\<lambda>r nr. hd r # map2 (+) (tl r) nr) (rows csv) noise\<rparr>) a"
  using assms by (rule noisy_init_eq(1))

lemma example_noise_shape:
  "length (columns example_csv) = 13" "length example_noise = length (rows example_csv)"
  "list_all (\<lambda>r. length r = 12) example_noise"
  by (simp_all add: example_csv_def example_noise_def x_cols_def y_cols_def)

lemma example_noised:
  "example_csv\<lparr>rows := map2 (\<lambda>r nr. hd r # map2 (+) (tl r) nr) (rows example_csv) example_noise\<rparr>
   = \<lparr>columns = ''Unnamed: 0'' # x_cols @ y_cols,
      rows = [[0, 3 / 2, 0, 1, 2, 1, 1, 2, 0, 6, - 3, 5, 1],
              [1, 1, 1, 0, 1, 1, 5 / 4, - 1, 1 / 2, 3, 20, 0, 9]]\<rparr>"
  by (simp add: example_csv_def example_noise_def)

lemma example_noisy:
  "ODEDatasetClassifierNoisy_init example_csv 3 example_noise =
     Inr \<lparr>atr = 3, y_max = Some 20, y_min = Some 1,
          data = \<lparr>columns = x_cols @ [''yVirus''],
                  rows = [[ln (3 / 2), 0, 0, ln 2, 0, 0, 1], [0, 0, 0, 0, 0, ln (5 / 4), 20]]\<rparr>\<rparr>"
  by (simp add: ODEDatasetClassifierNoisy_init_def drop_first_column_def drop_columns_def
      example_csv_def example_noise_def add_noise_def x_cols_def y_cols_def mask_lt_1_def
      log_column_def list_pop_def max_axis0_at_def min_axis0_at_def column_at_def)

theorem noisy_is_classifier_of_noised_witness:
  "wf_frame example_csv \<and> length (columns example_csv) = 13
   \<and> length example_noise = length (rows example_csv)
   \<and> list_all (\<lambda>r. length r = 12) example_noise
   \<and> ODEDatasetClassifier_init
        \<lparr>columns = ''Unnamed: 0'' # x_cols @ y_cols,
         rows = [[0, 3 / 2, 0, 1, 2, 1, 1, 2, 0, 6, - 3, 5, 1],
                 [1, 1, 1, 0, 1, 1, 5 / 4, - 1, 1 / 2, 3, 20, 0, 9]]\<rparr> 3
     = Inr \<lparr>atr = 3, y_max = Some 20, y_min = Some 1,
          data = \<lparr>columns = x_cols @ [''yVirus''],
                  rows = [[ln (3 / 2), 0, 0, ln 2, 0, 0, 1], [0, 0, 0, 0, 0, ln (5 / 4), 20]]\<rparr>\<rparr>"
  using noisy_is_classifier_of_noised [OF example_csv_wf example_noise_shape, of 3]
    example_csv_wf example_noise_shape
  unfolding example_noised example_noisy
  by simp

lemma clip_log_cells_bounded:
  assumes "length xs = length ys"
  shows "list_all (\<lambda>(n, v). if n \<in> X then (0::real) \<le> v else 1 \<le> v)
           (zip (filter P xs)
                (map (\<lambda>(n, v). if n \<in> X then ln (if v < 1 then 1 else v)
                                else (if v < 1 then 1 else v))
                     (filter (\<lambda>(c, v). P c) (zip xs ys))))"
  using assms by (induction xs ys rule: list_induct2) auto

lemma stored_ok_classifier:
  assumes "wf_frame csv" and "ODEDatasetClassifier_init csv a = Inr ds"
  shows "stored_ok (ODEDatasetClassifier.data ds)"
proof -
  from ODEDatasetClassifier_init_Inr [OF assms] obtain c0 cs ys where
    c: "columns csv = c0 # cs" and
    d: "ODEDatasetClassifier.data ds =
               \<lparr>columns = filter (\<lambda>c. c \<notin> set ys) cs,
                rows = map (\<lambda>r. map (\<lambda>(n, v). if n \<in> set x_cols then ln (if v < 1 then 1 else v)
                                               else (if v < 1 then 1 else v))
                                (filter (\<lambda>(c, v). c \<notin> set ys) (zip cs (tl r))))
                           (rows csv)\<rparr>"
    by blast
  have len: "length cs = length (tl r)" if "r \<in> set (rows csv)" for r
    using assms(1) c that by (auto simp: wf_frame_def list_all_iff)
  have "list_all (\<lambda>(n, v). if n \<in> set x_cols then 0 \<le> v else 1 \<le> v)
          (zip (filter (\<lambda>c. c \<notin> set ys) cs)
               (map (\<lambda>(n, v). if n \<in> set x_cols then ln (if v < 1 then 1 else v)
                                else (if v < 1 then 1 else v))
                    (filter (\<lambda>(c, v). c \<notin> set ys) (zip cs (tl r)))))"
    if "r \<in> set (rows csv)" for r
    using len [OF that] by (rule clip_log_cells_bounded)
  then have "list_all (\<lambda>r. list_all (\<lambda>(n, v). if n \<in> set x_cols then 0 \<le> v else 1 \<le> v)
                 (zip (columns (ODEDatasetClassifier.data ds)) r))
               (rows (ODEDatasetClassifier.data ds))"
    unfolding d by (simp add: list_all_iff)
  with ODEDatasetClassifier_init_wf [OF assms] show ?thesis
    by (simp add: stored_ok_def)
qed

lemma stored_ok_noisy:
  assumes "wf_frame csv" and "ODEDatasetClassifierNoisy_init csv a noise = Inr ds"
  shows "stored_ok (ODEDatasetClassifier.data ds)"
proof -
  from noisy_init_Inr_shape [OF assms] have
    s: "length (columns csv) = 13" "length noise = length (rows csv)"
       "list_all (\<lambda>r. length r = 12) noise"
    by simp_all
  from noisy_init_eq [OF assms(1) s] assms(2) show ?thesis
    by (auto intro: stored_ok_classifier)
qed

lemma stored_ok_regression:
  assumes "wf_frame csv" and "ODEDataset_init csv = Inr ds"
  shows "stored_ok (ODEDataset.data ds)"
proof (cases "columns csv")
  case Nil
  then show ?thesis
    using assms(2) by (simp add: ODEDataset_init_def drop_first_column_def)
next
  case (Cons c0 cs)
  let ?d0 = "\<lparr>columns = cs, rows = map tl (rows csv)\<rparr>"
  have d0: "drop_first_column csv = Inr ?d0"
    using assms(1) Cons by (rule drop_first_column_wf)
  have wf0: "wf_frame ?d0"
    using assms(1) Cons by (rule wf_tail_frame)
  from assms(2) d0 have l: "log_columns x_cols (mask_lt_1 ?d0) = Inr (ODEDataset.data ds)"
    by (auto simp: ODEDataset_init_def split: sum.splits)
  note d = clip_then_log_Inr [OF wf0 l]
  have len: "length cs = length (tl r)" if "r \<in> set (rows csv)" for r
    using assms(1) Cons that by (auto simp: wf_frame_def list_all_iff)
  have "list_all (\<lambda>(n, v). if n \<in> set x_cols then 0 \<le> v else 1 \<le> v)
          (zip cs (map (\<lambda>(n, v). if n \<in> set x_cols then ln (if v < 1 then 1 else v)
                                else (if v < 1 then 1 else v)) (zip cs (tl r))))"
    if "r \<in> set (rows csv)" for r
    using clip_log_cells_bounded [OF len [OF that], of "set x_cols" "\<lambda>c. True"] by simp
  then have "list_all (\<lambda>r. list_all (\<lambda>(n, v). if n \<in> set x_cols then 0 \<le> v else 1 \<le> v)
                 (zip (columns (ODEDataset.data ds)) r))
               (rows (ODEDataset.data ds))"
    unfolding d by (simp add: map_cells_def list_all_iff)
  moreover have "wf_frame (ODEDataset.data ds)"
    unfolding d using wf0 by (rule wf_map_cells)
  ultimately show ?thesis
    by (simp add: stored_ok_def)
qed

lemma stored_ok_nonneg:
  assumes "stored_ok d" and "r \<in> set (rows d)" and "v \<in> set r"
  shows "0 \<le> v"
proof -
  have l: "length (columns d) = length r"
    using assms(1,2) by (auto simp: stored_ok_def wf_frame_def list_all_iff)
  then have "v \<in> snd ` set (zip (columns d) r)"
    using assms(3) by (metis map_snd_zip set_map)
  then obtain n where n: "(n, v) \<in> set (zip (columns d) r)"
    by auto
  have "list_all (\<lambda>(n, v). if n \<in> set x_cols then 0 \<le> v else 1 \<le> v) (zip (columns d) r)"
    using assms(1,2) by (simp add: stored_ok_def list_all_iff)
  with n have "if n \<in> set x_cols then 0 \<le> v else 1 \<le> v"
    unfolding list_all_iff by blast
  then show ?thesis
    by (cases "n \<in> set x_cols") simp_all
qed

lemma iloc_Inr_mem: "iloc d idx = Inr row \<Longrightarrow> row \<in> set (rows d)"
  by (auto simp: iloc_def Let_def split: if_splits)

lemma setitem_Inr_nonneg:
  assumes "setitem (replicate 4 0) k 1 = Inr t" and "v \<in> set t"
  shows "0 \<le> v"
proof -
  from assms(1) obtain j where "t = (replicate 4 (0::real))[j := 1]"
    by (auto simp: setitem_def Let_def split: if_splits)
  then have "set t \<subseteq> insert 1 (set (replicate 4 (0::real)))"
    using set_update_subset_insert [of "replicate 4 (0::real)" j 1] by simp
  with assms(2) show ?thesis
    by auto
qed

text \<open>
  Claim C7. The cells are reals, that is, finite. After the construction of an
  \<^verbatim>\<open>ODEDataset\<close>, an \<^verbatim>\<open>ODEDatasetClassifier\<close> or an \<^verbatim>\<open>ODEDatasetClassifierNoisy\<close>
  every cell of a logged pre column is at least 0 and every other cell is at least 1,
  as is every cell right after the clipping. \<^verbatim>\<open>__getitem__\<close> assigns no attribute (the
  model returns no new dataset) and what it returns is made of stored cells and of the
  entries 0 and 1 of the label, all at least 0.
\<close>

theorem stored_values_bounded:
  assumes "wf_frame csv"
  shows "(ODEDataset_init csv = Inr ds \<longrightarrow>
            stored_ok (ODEDataset.data ds)
          \<and> (ODEDataset_getitem ds idx = Inr (x, y) \<longrightarrow> list_all (\<lambda>v. 0 \<le> v) (x @ y)))
       \<and> (ODEDatasetClassifier_init csv a = Inr dc \<longrightarrow>
            stored_ok (ODEDatasetClassifier.data dc)
          \<and> (ODEDatasetClassifier_getitem dc idx = Inr (xc, tc) \<longrightarrow>
               list_all (\<lambda>v. 0 \<le> v) (xc @ tc)))
       \<and> (ODEDatasetClassifierNoisy_init csv a noise = Inr dn \<longrightarrow>
            stored_ok (ODEDatasetClassifier.data dn)
          \<and> (ODEDatasetClassifierNoisy_getitem dn idx = Inr (xn, tn) \<longrightarrow>
               list_all (\<lambda>v. 0 \<le> v) (xn @ tn)))
       \<and> list_all (list_all (\<lambda>v. 1 \<le> v)) (rows (mask_lt_1 csv))"
proof (intro conjI impI)
  show "list_all (list_all (\<lambda>v. 1 \<le> v)) (rows (mask_lt_1 csv))"
    by (auto simp: mask_lt_1_def list_all_iff)
next
  assume i: "ODEDataset_init csv = Inr ds"
  show ok: "stored_ok (ODEDataset.data ds)"
    using assms i by (rule stored_ok_regression)
  assume "ODEDataset_getitem ds idx = Inr (x, y)"
  then obtain row where r: "iloc (ODEDataset.data ds) idx = Inr row"
    and xy: "x = take 6 row" "y = take 6 (drop 6 row)"
    by (auto simp: ODEDataset_getitem_def split: sum.splits)
  have "set (x @ y) \<subseteq> set row"
    using xy by (auto dest: in_set_takeD in_set_dropD)
  then show "list_all (\<lambda>v. 0 \<le> v) (x @ y)"
    unfolding list_all_iff using stored_ok_nonneg [OF ok iloc_Inr_mem [OF r]] by blast
next
  assume i: "ODEDatasetClassifier_init csv a = Inr dc"
  show ok: "stored_ok (ODEDatasetClassifier.data dc)"
    using assms i by (rule stored_ok_classifier)
  assume "ODEDatasetClassifier_getitem dc idx = Inr (xc, tc)"
  then obtain row k where r: "iloc (ODEDatasetClassifier.data dc) idx = Inr row"
    and x: "xc = take 6 row" and t: "setitem (replicate 4 0) k 1 = Inr tc"
    by (auto simp: ODEDatasetClassifier_getitem_def Let_def split: sum.splits if_splits)
  have "0 \<le> v" if "v \<in> set xc" for v
    using that x stored_ok_nonneg [OF ok iloc_Inr_mem [OF r]] by (auto dest: in_set_takeD)
  moreover have "0 \<le> v" if "v \<in> set tc" for v
    using t that by (rule setitem_Inr_nonneg)
  ultimately show "list_all (\<lambda>v. 0 \<le> v) (xc @ tc)"
    unfolding list_all_iff by auto
next
  assume i: "ODEDatasetClassifierNoisy_init csv a noise = Inr dn"
  show ok: "stored_ok (ODEDatasetClassifier.data dn)"
    using assms i by (rule stored_ok_noisy)
  assume "ODEDatasetClassifierNoisy_getitem dn idx = Inr (xn, tn)"
  then obtain row k where r: "iloc (ODEDatasetClassifier.data dn) idx = Inr row"
    and x: "xn = take 6 row" and t: "setitem (replicate 4 0) k 1 = Inr tn"
    by (auto simp: ODEDatasetClassifierNoisy_getitem_def Let_def split: sum.splits if_splits)
  have "0 \<le> v" if "v \<in> set xn" for v
    using that x stored_ok_nonneg [OF ok iloc_Inr_mem [OF r]] by (auto dest: in_set_takeD)
  moreover have "0 \<le> v" if "v \<in> set tn" for v
    using t that by (rule setitem_Inr_nonneg)
  ultimately show "list_all (\<lambda>v. 0 \<le> v) (xn @ tn)"
    unfolding list_all_iff by auto
qed

lemma same_tail_drop_first:
  assumes "wf_frame a" and "wf_frame b" and "columns a \<noteq> []" and "columns b \<noteq> []"
    and "tl (columns a) = tl (columns b)" and "map tl (rows a) = map tl (rows b)"
  shows "drop_first_column a = drop_first_column b"
proof -
  from assms(3) obtain ca cs where a: "columns a = ca # cs"
    by (cases "columns a") auto
  from assms(4,5) a obtain cb where b: "columns b = cb # cs"
    by (cases "columns b") auto
  show ?thesis
    unfolding drop_first_column_wf [OF assms(1) a] drop_first_column_wf [OF assms(2) b]
    using assms(6) by simp
qed

text \<open>
  Claim C8. Two parsed files that differ in their first column only (its label, its
  cells) give the same dataset with each of the three constructors (the noisy one on
  the same sample of the noise), hence the same
  features, labels, \<^verbatim>\<open>y_min\<close> and \<^verbatim>\<open>y_max\<close>, the same error when the construction
  fails, and the same result of every \<^verbatim>\<open>__getitem__\<close>.
\<close>

theorem index_column_ignored:
  assumes "wf_frame a" and "wf_frame b" and "columns a \<noteq> []" and "columns b \<noteq> []"
    and "tl (columns a) = tl (columns b)" and "map tl (rows a) = map tl (rows b)"
  shows "ODEDataset_init a = ODEDataset_init b
       \<and> ODEDatasetClassifier_init a k = ODEDatasetClassifier_init b k
       \<and> ODEDatasetClassifierNoisy_init a k noise = ODEDatasetClassifierNoisy_init b k noise
       \<and> (case ODEDataset_init a of Inl e \<Rightarrow> Inl e | Inr ds \<Rightarrow> ODEDataset_getitem ds idx)
         = (case ODEDataset_init b of Inl e \<Rightarrow> Inl e | Inr ds \<Rightarrow> ODEDataset_getitem ds idx)
       \<and> (case ODEDatasetClassifier_init a k of
             Inl e \<Rightarrow> Inl e | Inr ds \<Rightarrow> ODEDatasetClassifier_getitem ds idx)
         = (case ODEDatasetClassifier_init b k of
             Inl e \<Rightarrow> Inl e | Inr ds \<Rightarrow> ODEDatasetClassifier_getitem ds idx)
       \<and> (case ODEDatasetClassifierNoisy_init a k noise of
             Inl e \<Rightarrow> Inl e | Inr ds \<Rightarrow> ODEDatasetClassifierNoisy_getitem ds idx)
         = (case ODEDatasetClassifierNoisy_init b k noise of
             Inl e \<Rightarrow> Inl e | Inr ds \<Rightarrow> ODEDatasetClassifierNoisy_getitem ds idx)"
proof -
  note d = same_tail_drop_first [OF assms]
  have 1: "ODEDataset_init a = ODEDataset_init b"
    by (simp add: ODEDataset_init_def d)
  have 2: "ODEDatasetClassifier_init a k = ODEDatasetClassifier_init b k"
    by (simp add: ODEDatasetClassifier_init_def d)
  have 3: "ODEDatasetClassifierNoisy_init a k noise = ODEDatasetClassifierNoisy_init b k noise"
    by (simp add: ODEDatasetClassifierNoisy_init_def d)
  show ?thesis
    unfolding 1 2 3 by simp
qed

lemma example_regression:
  "ODEDataset_init example_csv =
     Inr \<lparr>ODEDataset.data =
           \<lparr>columns = x_cols @ y_cols,
            rows = [[0, ln 3, 0, 0, 0, 0, 2, 1, 5, 7, 1, 1],
                    [0, 0, ln 4, 0, 0, 0, 4, 1, 3, 15, 2, 9]]\<rparr>\<rparr>"
  by (simp add: ODEDataset_init_def drop_first_column_def drop_columns_def
      example_csv_def x_cols_def y_cols_def mask_lt_1_def log_column_def)

lemma example_regression_getitem:
  "ODEDataset_getitem
     \<lparr>ODEDataset.data =
        \<lparr>columns = x_cols @ y_cols,
         rows = [[0, ln 3, 0, 0, 0, 0, 2, 1, 5, 7, 1, 1],
                 [0, 0, ln 4, 0, 0, 0, 4, 1, 3, 15, 2, 9]]\<rparr>\<rparr> 0
   = Inr ([0, ln 3, 0, 0, 0, 0], [2, 1, 5, 7, 1, 1])"
  by (simp add: ODEDataset_getitem_def iloc_def)

lemma example_classifier_getitem:
  "ODEDatasetClassifier_getitem
     \<lparr>atr = 3, y_max = Some 15, y_min = Some 7,
      data = \<lparr>columns = x_cols @ [''yVirus''],
              rows = [[0, ln 3, 0, 0, 0, 0, 7], [0, 0, ln 4, 0, 0, 0, 15]]\<rparr>\<rparr> 0
   = Inr ([0, ln 3, 0, 0, 0, 0], [1, 0, 0, 0])"
  by (simp add: ODEDatasetClassifier_getitem_def iloc_def setitem_one_hot
      ODEDatasetClassifier_self_bracket_def ODEDatasetClassifier_bracket_def)

lemma example_noisy_getitem:
  "ODEDatasetClassifierNoisy_getitem
     \<lparr>atr = 3, y_max = Some 20, y_min = Some 1,
      data = \<lparr>columns = x_cols @ [''yVirus''],
              rows = [[ln (3 / 2), 0, 0, ln 2, 0, 0, 1],
                      [0, 0, 0, 0, 0, ln (5 / 4), 20]]\<rparr>\<rparr> 1
   = Inr ([0, 0, 0, 0, 0, ln (5 / 4)], [0, 0, 0, 1])"
  by (simp add: ODEDatasetClassifierNoisy_getitem_def iloc_def setitem_one_hot
      ODEDatasetClassifierNoisy_self_bracket_def ODEDatasetClassifierNoisy_bracket_def)

theorem stored_values_bounded_witness:
  "wf_frame example_csv
   \<and> ODEDataset_init example_csv =
       Inr \<lparr>ODEDataset.data =
             \<lparr>columns = x_cols @ y_cols,
              rows = [[0, ln 3, 0, 0, 0, 0, 2, 1, 5, 7, 1, 1],
                      [0, 0, ln 4, 0, 0, 0, 4, 1, 3, 15, 2, 9]]\<rparr>\<rparr>
   \<and> stored_ok \<lparr>columns = x_cols @ y_cols,
                 rows = [[0, ln 3, 0, 0, 0, 0, 2, 1, 5, 7, 1, 1],
                         [0, 0, ln 4, 0, 0, 0, 4, 1, 3, 15, 2, 9]]\<rparr>
   \<and> list_all (\<lambda>v. 0 \<le> v) ([0, ln 3, 0, 0, 0, 0] @ [2, 1, 5, 7, 1, 1 :: real])
   \<and> ODEDatasetClassifier_init example_csv 3 =
       Inr \<lparr>atr = 3, y_max = Some 15, y_min = Some 7,
            data = \<lparr>columns = x_cols @ [''yVirus''],
                    rows = [[0, ln 3, 0, 0, 0, 0, 7], [0, 0, ln 4, 0, 0, 0, 15]]\<rparr>\<rparr>
   \<and> stored_ok \<lparr>columns = x_cols @ [''yVirus''],
                 rows = [[0, ln 3, 0, 0, 0, 0, 7], [0, 0, ln 4, 0, 0, 0, 15]]\<rparr>
   \<and> list_all (\<lambda>v. 0 \<le> v) ([0, ln 3, 0, 0, 0, 0] @ [1, 0, 0, 0 :: real])
   \<and> ODEDatasetClassifierNoisy_init example_csv 3 example_noise =
       Inr \<lparr>atr = 3, y_max = Some 20, y_min = Some 1,
            data = \<lparr>columns = x_cols @ [''yVirus''],
                    rows = [[ln (3 / 2), 0, 0, ln 2, 0, 0, 1],
                            [0, 0, 0, 0, 0, ln (5 / 4), 20]]\<rparr>\<rparr>
   \<and> stored_ok \<lparr>columns = x_cols @ [''yVirus''],
                 rows = [[ln (3 / 2), 0, 0, ln 2, 0, 0, 1],
                         [0, 0, 0, 0, 0, ln (5 / 4), 20]]\<rparr>
   \<and> list_all (\<lambda>v. 0 \<le> v) ([0, 0, 0, 0, 0, ln (5 / 4)] @ [0, 0, 0, 1 :: real])"
proof -
  note t = stored_values_bounded [OF example_csv_wf,
      of "\<lparr>ODEDataset.data =
             \<lparr>columns = x_cols @ y_cols,
              rows = [[0, ln 3, 0, 0, 0, 0, 2, 1, 5, 7, 1, 1],
                      [0, 0, ln 4, 0, 0, 0, 4, 1, 3, 15, 2, 9]]\<rparr>\<rparr>"
         0 "[0, ln 3, 0, 0, 0, 0]" "[2, 1, 5, 7, 1, 1]"
         3 "\<lparr>atr = 3, y_max = Some 15, y_min = Some 7,
            data = \<lparr>columns = x_cols @ [''yVirus''],
                    rows = [[0, ln 3, 0, 0, 0, 0, 7], [0, 0, ln 4, 0, 0, 0, 15]]\<rparr>\<rparr>"
         "[0, ln 3, 0, 0, 0, 0]" "[1, 0, 0, 0]"
         example_noise
         "\<lparr>atr = 3, y_max = Some 20, y_min = Some 1,
            data = \<lparr>columns = x_cols @ [''yVirus''],
                    rows = [[ln (3 / 2), 0, 0, ln 2, 0, 0, 1],
                            [0, 0, 0, 0, 0, ln (5 / 4), 20]]\<rparr>\<rparr>"]
  show ?thesis
    using t example_csv_wf example_regression example_regression_getitem
      example_classifier example_classifier_getitem example_noisy example_noisy_getitem
    by simp
qed

lemma example_csv_reindexed_wf: "wf_frame example_csv_reindexed"
  by (simp add: wf_frame_def example_csv_reindexed_def x_cols_def y_cols_def)

theorem index_column_ignored_witness:
  "wf_frame example_csv \<and> wf_frame example_csv_reindexed
   \<and> columns example_csv \<noteq> [] \<and> columns example_csv_reindexed \<noteq> []
   \<and> tl (columns example_csv) = tl (columns example_csv_reindexed)
   \<and> map tl (rows example_csv) = map tl (rows example_csv_reindexed)
   \<and> columns example_csv \<noteq> columns example_csv_reindexed
   \<and> rows example_csv \<noteq> rows example_csv_reindexed
   \<and> ODEDataset_init example_csv_reindexed =
       Inr \<lparr>ODEDataset.data =
             \<lparr>columns = x_cols @ y_cols,
              rows = [[0, ln 3, 0, 0, 0, 0, 2, 1, 5, 7, 1, 1],
                      [0, 0, ln 4, 0, 0, 0, 4, 1, 3, 15, 2, 9]]\<rparr>\<rparr>
   \<and> ODEDatasetClassifier_init example_csv_reindexed 3 =
       Inr \<lparr>atr = 3, y_max = Some 15, y_min = Some 7,
            data = \<lparr>columns = x_cols @ [''yVirus''],
                    rows = [[0, ln 3, 0, 0, 0, 0, 7], [0, 0, ln 4, 0, 0, 0, 15]]\<rparr>\<rparr>
   \<and> ODEDatasetClassifierNoisy_init example_csv_reindexed 3 example_noise =
       Inr \<lparr>atr = 3, y_max = Some 20, y_min = Some 1,
            data = \<lparr>columns = x_cols @ [''yVirus''],
                    rows = [[ln (3 / 2), 0, 0, ln 2, 0, 0, 1],
                            [0, 0, 0, 0, 0, ln (5 / 4), 20]]\<rparr>\<rparr>"
proof -
  have h: "columns example_csv \<noteq> []" "columns example_csv_reindexed \<noteq> []"
    "tl (columns example_csv) = tl (columns example_csv_reindexed)"
    "map tl (rows example_csv) = map tl (rows example_csv_reindexed)"
    by (simp_all add: example_csv_def example_csv_reindexed_def)
  have d: "columns example_csv \<noteq> columns example_csv_reindexed"
    "rows example_csv \<noteq> rows example_csv_reindexed"
    by (simp_all add: example_csv_def example_csv_reindexed_def)
  from index_column_ignored [OF example_csv_wf example_csv_reindexed_wf h, of 3 example_noise 0]
  show ?thesis
    using example_csv_wf example_csv_reindexed_wf h d
    unfolding example_regression example_classifier example_noisy
    by simp
qed

end
